theory Spec2Isabelle
  imports Main
begin

section \<open>Rasters, the object store and the environment\<close>

text \<open>
  The asset extractor (\<^verbatim>\<open>scripts/extract_assets.py\<close>) works on Pillow image objects.
  An RGBA pixel is the 4-tuple of channel values that \<^verbatim>\<open>pixels[x, y]\<close> returns; a
  channel is a byte, read by Python as a non-negative integer.
\<close>

type_synonym rgba = "nat \<times> nat \<times> nat \<times> nat"

datatype mode = RGBA | RGB

text \<open>
  An image object: its mode, its size \<open>(width, height)\<close> and its pixel access object,
  indexed by \<open>(x, y)\<close>. The loops of the program only read and write coordinates inside
  the raster. The model has the two modes that the tool meets: its JPEG source decodes to
  RGB, and the PNG files that it writes and reads back are RGBA. The alpha component of a
  pixel of an RGB image carries no information.
\<close>

record image =
  mode :: mode
  size_im :: "nat \<times> nat"
  pixels :: "nat \<times> nat \<Rightarrow> rgba"

text \<open>
  Image objects are mutable and are handled through references, so the program state
  holds a store from references to image objects together with the next unused reference.
  The file system maps a path to what is stored there. The environment answers three
  questions: \<open>save_raises\<close>, whether writing a given image to a given path fails;
  \<open>makedirs_raises\<close>, whether creating the directories of a path fails;
  \<open>open_raises\<close>, whether opening a path for writing fails. The program never changes
  these answers. The console collects what the program prints.
\<close>

type_synonym ref = nat

datatype error = ValueError | OSError | ZeroDivisionError | SystemError

datatype stored = Image_file image | Text_file

datatype msg =
    Loading_source string
  | Image_size "nat \<times> nat"
  | Image_mode mode
  | Error_loading error
  | Ok_extracted string int int
  | Error_extracting string error
  | Extracted_count nat nat
  | Created_directory string
  | Spritesheet_not_found string
  | Effect_spritesheet_not_found string
  | Sheet_info string "nat \<times> nat" "nat \<times> nat"
  | Ok_split string nat
  | Error_splitting string error
  | Created_config string
  | Print string

record world =
  heap :: "ref \<Rightarrow> image"
  next_ref :: ref
  files :: "string \<Rightarrow> stored option"
  save_raises :: "string \<Rightarrow> image \<Rightarrow> bool"
  makedirs_raises :: "string \<Rightarrow> bool"
  open_raises :: "string \<Rightarrow> bool"
  console :: "msg list"

definition print :: "msg \<Rightarrow> world \<Rightarrow> world" where
  "print m w = w\<lparr>console := console w @ [m]\<rparr>"

text \<open>Allocation of a new image object: it gets the next unused reference.\<close>

definition new_image :: "image \<Rightarrow> world \<Rightarrow> ref \<times> world" where
  "new_image img w =
     (next_ref w, w\<lparr>heap := (heap w)(next_ref w := img), next_ref := Suc (next_ref w)\<rparr>)"

text \<open>
  \<^verbatim>\<open>image.convert('RGBA')\<close> returns a new image object of the same size; an RGB pixel
  becomes opaque (alpha 255), an RGBA pixel is copied.
\<close>

definition as_RGBA :: "image \<Rightarrow> image" where
  "as_RGBA old =
     \<lparr>mode = RGBA, size_im = size_im old,
      pixels = (\<lambda>c. case pixels old c of (r, g, b, a) \<Rightarrow>
                  (r, g, b, if mode old = RGB then 255 else a))\<rparr>"

definition convert_RGBA :: "ref \<Rightarrow> world \<Rightarrow> ref \<times> world" where
  "convert_RGBA img w = new_image (as_RGBA (heap w img)) w"

text \<open>\<^verbatim>\<open>pixels[x, y] = v\<close>: an in-place write into the buffer of the image object.\<close>

definition putpixel :: "ref \<Rightarrow> nat \<times> nat \<Rightarrow> rgba \<Rightarrow> world \<Rightarrow> world" where
  "putpixel img c v w =
     w\<lparr>heap := (heap w)(img := (heap w img)\<lparr>pixels := (pixels (heap w img))(c := v)\<rparr>)\<rparr>"

section \<open>The background-keying filter\<close>

text \<open>
  The body of the inner loop of \<^verbatim>\<open>remove_checkered_background\<close>, at column \<open>x\<close> of
  row \<open>y\<close>:
  \<^verbatim>\<open>
  r, g, b, a = pixels[x, y]
  if abs(r - g) < 10 and abs(g - b) < 10 and abs(r - b) < 10:
      if 180 <= r <= 220:
          pixels[x, y] = (r, g, b, 0)
  \<close>
\<close>

definition key_body :: "ref \<Rightarrow> nat \<Rightarrow> nat \<Rightarrow> world \<Rightarrow> world" where
  "key_body img y x w =
     (case pixels (heap w img) (x, y) of (r, g, b, a) \<Rightarrow>
        if \<bar>int r - int g\<bar> < 10 \<and> \<bar>int g - int b\<bar> < 10 \<and> \<bar>int r - int b\<bar> < 10
        then (if 180 \<le> r \<and> r \<le> 220 then putpixel img (x, y) (r, g, b, 0) w else w)
        else w)"

text \<open>
  \<^verbatim>\<open>remove_checkered_background(image)\<close>: an image that is not RGBA is converted first
  (the local name is rebound to the new object); then every row \<open>y\<close> in
  \<open>range(height)\<close> and every column \<open>x\<close> in \<open>range(width)\<close> is visited; the image
  object that was scanned is returned. The list \<^verbatim>\<open>transparent_colors\<close> of the source
  is never read by it.
\<close>

definition remove_checkered_background :: "ref \<Rightarrow> world \<Rightarrow> ref \<times> world" where
  "remove_checkered_background img w =
     (case (if mode (heap w img) \<noteq> RGBA then convert_RGBA img w else (img, w)) of
        (img', w') \<Rightarrow>
          (case size_im (heap w' img') of (width, height) \<Rightarrow>
             (img',
              fold (\<lambda>y. fold (\<lambda>x. key_body img' y x) [0..<width]) [0..<height] w')))"

text \<open>
  What the filter is meant to do to one pixel: the alpha of a near-gray pixel in the band
  180..220 becomes 0. The loops above are compared with this function below.
\<close>

definition is_background :: "rgba \<Rightarrow> bool" where
  "is_background p =
     (case p of (r, g, b, a) \<Rightarrow>
        \<bar>int r - int g\<bar> < 10 \<and> \<bar>int g - int b\<bar> < 10 \<and> \<bar>int r - int b\<bar> < 10 \<and>
        180 \<le> r \<and> r \<le> 220)"

definition keyed :: "rgba \<Rightarrow> rgba" where
  "keyed p = (case p of (r, g, b, a) \<Rightarrow> if is_background p then (r, g, b, 0) else p)"

section \<open>Opening, cropping and saving images\<close>

text \<open>
  \<^verbatim>\<open>Image.open(path)\<close>: a path that holds no decodable image raises; otherwise a new
  image object with the stored raster is returned.
\<close>

definition Image_open :: "string \<Rightarrow> world \<Rightarrow> (error + ref) \<times> world" where
  "Image_open path w =
     (case files w path of
        Some (Image_file im) \<Rightarrow> (case new_image im w of (r, w') \<Rightarrow> (Inr r, w'))
      | Some Text_file \<Rightarrow> (Inl OSError, w)
      | None \<Rightarrow> (Inl OSError, w))"

text \<open>
  \<^verbatim>\<open>image.crop((left, upper, right, lower))\<close>: Pillow raises \<^verbatim>\<open>ValueError\<close> when
  \<open>right < left\<close> ("Coordinate 'right' is less than 'left'") or \<open>lower < upper\<close>;
  otherwise it returns a new image object of the same mode and of size
  \<open>(right - left, lower - upper)\<close> whose pixel \<open>(i, j)\<close> is the source pixel
  \<open>(left + i, upper + j)\<close>, and zero where that lies outside the source.
\<close>

type_synonym box = "int \<times> int \<times> int \<times> int"

definition cropped_image :: "image \<Rightarrow> box \<Rightarrow> image" where
  "cropped_image src bx =
     (case bx of (left, upper, right, lower) \<Rightarrow>
        \<lparr>mode = mode src,
         size_im = (nat (right - left), nat (lower - upper)),
         pixels = (\<lambda>(i, j).
            if 0 \<le> left + int i \<and> left + int i < int (fst (size_im src)) \<and>
               0 \<le> upper + int j \<and> upper + int j < int (snd (size_im src))
            then pixels src (nat (left + int i), nat (upper + int j))
            else (0, 0, 0, 0))\<rparr>)"

definition crop :: "ref \<Rightarrow> box \<Rightarrow> world \<Rightarrow> (error + ref) \<times> world" where
  "crop img bx w =
     (case bx of (left, upper, right, lower) \<Rightarrow>
        if right < left then (Inl ValueError, w)
        else if lower < upper then (Inl ValueError, w)
        else (case new_image (cropped_image (heap w img) bx) w of (r, w') \<Rightarrow> (Inr r, w')))"

text \<open>
  \<^verbatim>\<open>image.save(path, 'PNG')\<close> opens the destination and then encodes the raster. The
  call raises \<^verbatim>\<open>OSError\<close> when the environment refuses the write, and Pillow refuses
  to encode a raster of zero width or zero height (\<^verbatim>\<open>SystemError\<close>, "tile cannot extend
  outside image"). When the call raises, the destination is as before; otherwise the path
  holds the raster as it is at the time of the call.
\<close>

definition save_error :: "(string \<Rightarrow> image \<Rightarrow> bool) \<Rightarrow> string \<Rightarrow> image \<Rightarrow> error option" where
  "save_error refuses path im =
     (if refuses path im then Some OSError
      else if fst (size_im im) = 0 \<or> snd (size_im im) = 0 then Some SystemError
      else None)"

definition save_PNG :: "ref \<Rightarrow> string \<Rightarrow> world \<Rightarrow> (error + unit) \<times> world" where
  "save_PNG img path w =
     (case save_error (save_raises w) path (heap w img) of
        Some e \<Rightarrow> (Inl e, w)
      | None \<Rightarrow> (Inr (), w\<lparr>files := (files w)(path \<mapsto> Image_file (heap w img))\<rparr>))"


text \<open>
  \<^verbatim>\<open>os.path.join\<close> on the Windows paths of the script; every joined component of the
  program is a relative path.
\<close>

definition os_path_join :: "string \<Rightarrow> string \<Rightarrow> string" where
  "os_path_join a b = a @ [CHR 0x5C] @ b"

definition SOURCE_IMAGE :: string where
  "SOURCE_IMAGE = ''C:'' @ [CHR 0x5C] @ ''Users'' @ [CHR 0x5C] @ ''skadd'' @ [CHR 0x5C] @
     ''OneDrive'' @ [CHR 0x5C] @ ''Desktop'' @ [CHR 0x5C] @ ''Game assets.jpg''"

definition OUTPUT_BASE :: string where
  "OUTPUT_BASE = ''C:'' @ [CHR 0x5C] @ ''Users'' @ [CHR 0x5C] @ ''skadd'' @ [CHR 0x5C] @
     ''clawdbot-arena'' @ [CHR 0x5C] @ ''apps'' @ [CHR 0x5C] @ ''web'' @ [CHR 0x5C] @
     ''public'' @ [CHR 0x5C] @ ''assets''"

text \<open>
  A \<^verbatim>\<open>for\<close> loop whose body may raise: the first exception ends the loop, and the
  state reached so far stays.
\<close>

fun for_loop ::
  "'a list \<Rightarrow> ('a \<Rightarrow> 'b \<Rightarrow> world \<Rightarrow> (error + 'b) \<times> world) \<Rightarrow> 'b \<Rightarrow> world \<Rightarrow>
   (error + 'b) \<times> world" where
  "for_loop [] body acc w = (Inr acc, w)"
| "for_loop (x # xs) body acc w =
     (case body x acc w of
        (Inl e, w') \<Rightarrow> (Inl e, w')
      | (Inr acc', w') \<Rightarrow> for_loop xs body acc' w')"

section \<open>Region extraction\<close>

text \<open>
  The table \<^verbatim>\<open>ASSETS\<close>: output path, region \<open>(x, y, width, height)\<close> and description,
  in the order of the dictionary.
\<close>

type_synonym region = "int \<times> int \<times> int \<times> int"

type_synonym asset = "string \<times> region \<times> string"

definition ASSETS :: "asset list" where
  "ASSETS =
    [(''sprites/fighters/alphabot/spritesheet.png'', (0, 12, 295, 115),
        ''AlphaBot fighter sprites (8 frames)''),
     (''sprites/fighters/neuralknight/spritesheet.png'', (0, 140, 295, 115),
        ''NeuralKnight fighter sprites (8 frames)''),
     (''sprites/fighters/quantumfist/spritesheet.png'', (0, 268, 295, 115),
        ''QuantumFist fighter sprites (8 frames)''),
     (''sprites/fighters/ironlogic/spritesheet.png'', (0, 396, 295, 115),
        ''IronLogic fighter sprites (8 frames)''),
     (''backgrounds/cyber-colosseum/layer1-far.png'', (305, 12, 175, 45),
        ''Cyber Colosseum far background''),
     (''backgrounds/cyber-colosseum/layer2-mid.png'', (305, 62, 175, 45),
        ''Cyber Colosseum mid background''),
     (''backgrounds/cyber-colosseum/layer3-near.png'', (305, 112, 175, 60),
        ''Cyber Colosseum near background''),
     (''backgrounds/factory-floor/layer1-far.png'', (490, 12, 175, 45),
        ''Factory Floor far background''),
     (''backgrounds/factory-floor/layer2-mid.png'', (490, 62, 175, 45),
        ''Factory Floor mid background''),
     (''backgrounds/factory-floor/layer3-near.png'', (490, 112, 175, 60),
        ''Factory Floor near background''),
     (''backgrounds/digital-void/layer1-far.png'', (675, 12, 175, 45),
        ''Digital Void far background''),
     (''backgrounds/digital-void/layer2-mid.png'', (675, 62, 175, 45),
        ''Digital Void mid background''),
     (''backgrounds/digital-void/layer3-near.png'', (675, 112, 175, 60),
        ''Digital Void near background''),
     (''ui/health-bar.png'', (305, 185, 200, 40), ''Health bar UI''),
     (''ui/combo-counter.png'', (515, 185, 80, 70), ''Combo counter UI''),
     (''ui/round-indicators.png'', (605, 185, 100, 70), ''Round indicators''),
     (''ui/announcer-text.png'', (860, 12, 155, 160), ''Announcer text (FIGHT, KO, etc)''),
     (''ui/timer.png'', (715, 185, 85, 50), ''Timer display''),
     (''ui/betting-frame.png'', (860, 185, 155, 200), ''Betting panel frame''),
     (''sprites/effects/hit-spark.png'', (305, 240, 140, 75), ''Hit spark effect frames''),
     (''sprites/effects/heavy-hit.png'', (455, 240, 140, 75), ''Heavy hit effect frames''),
     (''sprites/effects/block.png'', (605, 240, 90, 90), ''Block/parry effect frames''),
     (''sprites/effects/dust.png'', (700, 270, 100, 50), ''Dust cloud effect frames''),
     (''sprites/effects/ko-explosion.png'', (305, 330, 100, 90), ''KO explosion effect''),
     (''sprites/effects/energy-charge.png'', (415, 330, 100, 90), ''Energy charge effect''),
     (''sprites/fighters/alphabot/portrait.png'', (525, 400, 90, 110), ''AlphaBot portrait''),
     (''sprites/fighters/neuralknight/portrait.png'', (625, 400, 90, 110),
        ''NeuralKnight portrait''),
     (''sprites/fighters/quantumfist/portrait.png'', (725, 400, 90, 110),
        ''QuantumFist portrait''),
     (''sprites/fighters/ironlogic/portrait.png'', (825, 400, 90, 110),
        ''IronLogic portrait'')]"

text \<open>
  The crop box of a region against a source of size \<open>(W, H)\<close>:
  \<^verbatim>\<open>
  x, y, w, h = region
  crop_box = (x, y, x + w, y + h)
  crop_box = (max(0, crop_box[0]), max(0, crop_box[1]),
              min(source.size[0], crop_box[2]), min(source.size[1], crop_box[3]))
  \<close>
\<close>

definition crop_box :: "nat \<times> nat \<Rightarrow> region \<Rightarrow> box" where
  "crop_box source_size region =
     (case region of (x, y, w, h) \<Rightarrow>
        (max 0 x, max 0 y, min (int (fst source_size)) (x + w), min (int (snd source_size)) (y + h)))"

text \<open>
  The body of the \<^verbatim>\<open>try\<close> block of one descriptor: crop, key, save, report, count.
  The result is the exception raised, if any, with the state reached at that point.
\<close>

definition extract_one :: "ref \<Rightarrow> asset \<Rightarrow> world \<Rightarrow> (error + unit) \<times> world" where
  "extract_one source asset w =
     (case asset of (output_path, region, description) \<Rightarrow>
        (case region of (x, y, wd, h) \<Rightarrow>
           (case crop source (crop_box (size_im (heap w source)) region) w of
              (Inl e, w1) \<Rightarrow> (Inl e, w1)
            | (Inr cropped, w1) \<Rightarrow>
                (case remove_checkered_background cropped w1 of
                   (cropped', w2) \<Rightarrow>
                     (case save_PNG cropped' (os_path_join OUTPUT_BASE output_path) w2 of
                        (Inl e, w3) \<Rightarrow> (Inl e, w3)
                      | (Inr u, w3) \<Rightarrow> (Inr (), print (Ok_extracted output_path wd h) w3))))))"

text \<open>
  One round of the loop over the table: the \<^verbatim>\<open>except\<close> branch reports the error and
  leaves the count as it is.
\<close>

definition extract_step :: "ref \<Rightarrow> asset \<Rightarrow> nat \<times> world \<Rightarrow> nat \<times> world" where
  "extract_step source asset s =
     (case s of (extracted_count, w) \<Rightarrow>
        (case extract_one source asset w of
           (Inr u, w') \<Rightarrow> (extracted_count + 1, w')
         | (Inl e, w') \<Rightarrow> (extracted_count, print (Error_extracting (fst asset) e) w')))"

text \<open>
  \<^verbatim>\<open>extract_assets(source_path)\<close>, with the table as a parameter; the program runs it on
  \<^verbatim>\<open>ASSETS\<close>.
\<close>

definition extract_assets_over :: "asset list \<Rightarrow> string \<Rightarrow> world \<Rightarrow> bool \<times> world" where
  "extract_assets_over table source_path w =
     (case Image_open source_path (print (Loading_source source_path) w) of
        (Inl e, w1) \<Rightarrow> (False, print (Error_loading e) w1)
      | (Inr source0, w1) \<Rightarrow>
          (case (if mode (heap w1 source0) \<noteq> RGBA then convert_RGBA source0 w1
                 else (source0, w1)) of
             (source, w2) \<Rightarrow>
               (case fold (extract_step source) table
                       (0, print (Image_mode (mode (heap w2 source)))
                             (print (Image_size (size_im (heap w2 source))) w2)) of
                  (extracted_count, w3) \<Rightarrow>
                    (True, print (Extracted_count extracted_count (length table)) w3))))"


section \<open>Spritesheet slicing\<close>

text \<open>Decimal digits of a number, as \<^verbatim>\<open>f"{n}"\<close> and \<^verbatim>\<open>f"{n:02d}"\<close> print them.\<close>

function str :: "nat \<Rightarrow> string" where
  "str n = (if n < 10 then [char_of (48 + n)] else str (n div 10) @ [char_of (48 + n mod 10)])"
  by pat_completeness auto
termination
  by (relation "measure id") auto

declare str.simps [simp del]


text \<open>The dictionary \<^verbatim>\<open>animations\<close> of the fighter slicer, in insertion order.\<close>

definition animations :: "(string \<times> nat list) list" where
  "animations =
     [(''idle'', [0]), (''walk'', [1]), (''jump'', [2]), (''attack1'', [3]),
      (''attack2'', [4]), (''special'', [5]), (''hit'', [6]), (''ko'', [7])]"

text \<open>
  \<^verbatim>\<open>list(animations.keys())[frame_idx] if frame_idx < len(animations) else f"frame_{frame_idx}"\<close>
\<close>

definition anim_name :: "nat \<Rightarrow> string" where
  "anim_name frame_idx =
     (if frame_idx < length animations then map fst animations ! frame_idx
      else ''frame_'' @ str frame_idx)"

text \<open>The body of the inner loop of the fighter slicer, at \<open>row\<close> and \<open>col\<close>.\<close>

definition fighter_frame ::
  "ref \<Rightarrow> string \<Rightarrow> nat \<Rightarrow> nat \<Rightarrow> nat \<Rightarrow> nat \<Rightarrow> nat \<Rightarrow> world \<Rightarrow> (error + nat) \<times> world" where
  "fighter_frame sheet output_dir actual_frame_width actual_frame_height row col frame_idx w =
     (let x = col * actual_frame_width; y = row * actual_frame_height in
      case crop sheet (int x, int y, int (x + actual_frame_width),
                       int (y + actual_frame_height)) w of
        (Inl e, w1) \<Rightarrow> (Inl e, w1)
      | (Inr frame, w1) \<Rightarrow>
          (case save_PNG frame (os_path_join output_dir (anim_name frame_idx @ ''.png'')) w1 of
             (Inl e, w2) \<Rightarrow> (Inl e, w2)
           | (Inr u, w2) \<Rightarrow> (Inr (frame_idx + 1), w2)))"

text \<open>The \<^verbatim>\<open>try\<close> block of \<^verbatim>\<open>split_fighter_spritesheet\<close>.\<close>

definition split_fighter_try ::
  "string \<Rightarrow> string \<Rightarrow> string \<Rightarrow> world \<Rightarrow> (error + unit) \<times> world" where
  "split_fighter_try fighter_name spritesheet_path output_dir w =
     (case Image_open spritesheet_path w of
        (Inl e, w1) \<Rightarrow> (Inl e, w1)
      | (Inr sheet0, w1) \<Rightarrow>
          (case (if mode (heap w1 sheet0) \<noteq> RGBA then convert_RGBA sheet0 w1
                 else (sheet0, w1)) of
             (sheet, w2) \<Rightarrow>
               (case size_im (heap w2 sheet) of
                  (sheet_width, sheet_height) \<Rightarrow>
                    (let frames_per_row = 4;
                         actual_frame_width = sheet_width div frames_per_row;
                         actual_frame_height = sheet_height div 2
                     in case for_loop [0..<2]
                               (\<lambda>row. for_loop [0..<4]
                                  (fighter_frame sheet output_dir actual_frame_width
                                     actual_frame_height row))
                               0
                               (print (Sheet_info fighter_name (sheet_width, sheet_height)
                                         (actual_frame_width, actual_frame_height)) w2) of
                          (Inl e, w3) \<Rightarrow> (Inl e, w3)
                        | (Inr frame_idx, w3) \<Rightarrow>
                            (Inr (), print (Ok_split fighter_name frame_idx) w3)))))"

text \<open>
  \<^verbatim>\<open>split_fighter_spritesheet(fighter_name)\<close>: a missing sheet is reported and skipped,
  an exception of the \<^verbatim>\<open>try\<close> block is reported. The parameters
  \<^verbatim>\<open>frame_width\<close> and \<^verbatim>\<open>frame_height\<close> of the source are never read by it.
\<close>

definition split_fighter_spritesheet :: "string \<Rightarrow> world \<Rightarrow> world" where
  "split_fighter_spritesheet fighter_name w =
     (let spritesheet_path =
            os_path_join OUTPUT_BASE (''sprites/fighters/'' @ fighter_name @ ''/spritesheet.png'');
          output_dir = os_path_join OUTPUT_BASE (''sprites/fighters/'' @ fighter_name)
      in if files w spritesheet_path = None
         then print (Spritesheet_not_found spritesheet_path) w
         else (case split_fighter_try fighter_name spritesheet_path output_dir w of
                 (Inl e, w') \<Rightarrow> print (Error_splitting fighter_name e) w'
               | (Inr u, w') \<Rightarrow> w'))"




section \<open>The run\<close>





section \<open>What one descriptor produces\<close>

text \<open>
  The statements below describe the program by a few functions without state. The raster
  after the filter: every pixel inside the raster is keyed.
\<close>

definition keyed_image :: "image \<Rightarrow> image" where
  "keyed_image im =
     im\<lparr>pixels := (\<lambda>c. if fst c < fst (size_im im) \<and> snd c < snd (size_im im)
                       then keyed (pixels im c) else pixels im c)\<rparr>"

text \<open>The raster that the processing of one region hands to \<^verbatim>\<open>save\<close>.\<close>

definition extracted_image :: "image \<Rightarrow> region \<Rightarrow> image" where
  "extracted_image src region = keyed_image (cropped_image src (crop_box (size_im src) region))"

text \<open>
  The exception that ends the processing of one descriptor, if any: the crop raises on an
  inverted box, the save raises when the environment says so or the raster is empty.
\<close>

definition outcome :: "(string \<Rightarrow> image \<Rightarrow> bool) \<Rightarrow> image \<Rightarrow> asset \<Rightarrow> error option" where
  "outcome sr src asset =
     (case asset of (output_path, region, description) \<Rightarrow>
        (case crop_box (size_im src) region of (left, upper, right, lower) \<Rightarrow>
           if right < left \<or> lower < upper then Some ValueError
           else save_error sr (os_path_join OUTPUT_BASE output_path)
                  (extracted_image src region)))"

text \<open>The line printed for one descriptor.\<close>

definition report :: "(string \<Rightarrow> image \<Rightarrow> bool) \<Rightarrow> image \<Rightarrow> asset \<Rightarrow> msg" where
  "report sr src asset =
     (case asset of (output_path, (x, y, wd, h), description) \<Rightarrow>
        (case outcome sr src asset of
           None \<Rightarrow> Ok_extracted output_path wd h
         | Some e \<Rightarrow> Error_extracting output_path e))"

text \<open>The state after the crop and the filter of one descriptor.\<close>

definition with_extracted :: "ref \<Rightarrow> region \<Rightarrow> world \<Rightarrow> world" where
  "with_extracted source region w =
     w\<lparr>heap := (heap w)(next_ref w := extracted_image (heap w source) region),
       next_ref := Suc (next_ref w)\<rparr>"

text \<open>The source raster in memory after loading: converted unless it is RGBA already.\<close>

definition loaded :: "image \<Rightarrow> image" where
  "loaded im = (if mode im \<noteq> RGBA then as_RGBA im else im)"

section \<open>What the fighter slicer produces\<close>

text \<open>
  The crop box of the frame at \<open>row\<close> and \<open>col\<close> for frames of a given width and height;
  the path of a fighter's sheet and the path of one of its frames; the names of the
  positional table, by frame index.
\<close>

definition frame_box :: "nat \<Rightarrow> nat \<Rightarrow> nat \<Rightarrow> nat \<Rightarrow> box" where
  "frame_box fw fh row col =
     (int (col * fw), int (row * fh), int (col * fw + fw), int (row * fh + fh))"

definition sheet_path :: "string \<Rightarrow> string" where
  "sheet_path fighter_name =
     os_path_join OUTPUT_BASE (''sprites/fighters/'' @ fighter_name @ ''/spritesheet.png'')"

definition frame_path :: "string \<Rightarrow> string \<Rightarrow> string" where
  "frame_path fighter_name name =
     os_path_join (os_path_join OUTPUT_BASE (''sprites/fighters/'' @ fighter_name)) (name @ ''.png'')"

definition frame_names :: "string list" where
  "frame_names = [''idle'', ''walk'', ''jump'', ''attack1'', ''attack2'', ''special'', ''hit'', ''ko'']"

section \<open>What the effect slicer produces\<close>






section \<open>The answers of the environment\<close>

text \<open>The two answers of the environment that concern directories and the manifest.\<close>

definition dirs_env :: "world \<Rightarrow> (string \<Rightarrow> bool) \<times> (string \<Rightarrow> bool)" where
  "dirs_env w = (makedirs_raises w, open_raises w)"

text \<open>
  The effect of the loops, written without loops: the pixels of one image object that
  satisfy \<open>P\<close> are replaced by their keyed value, and nothing else in the state changes.
\<close>

definition key_region :: "(nat \<times> nat \<Rightarrow> bool) \<Rightarrow> ref \<Rightarrow> world \<Rightarrow> world" where
  "key_region P img w =
     w\<lparr>heap := (heap w)(img := (heap w img)
         \<lparr>pixels := (\<lambda>c. if P c then keyed (pixels (heap w img) c) else pixels (heap w img) c)\<rparr>)\<rparr>"

section \<open>Concrete states used to instantiate the theorems\<close>

text \<open>
  A state with one RGBA image object of size 2 x 1 at reference 0: a mid-gray opaque pixel
  at \<open>(0, 0)\<close> and a red opaque pixel at \<open>(1, 0)\<close>.
\<close>

definition px_demo :: "nat \<times> nat \<Rightarrow> rgba" where
  "px_demo c = (if c = (0, 0) then (200, 200, 200, 255) else (200, 0, 0, 255))"

definition w_demo :: world where
  "w_demo =
     \<lparr>heap = (\<lambda>r. \<lparr>mode = RGBA, size_im = (2, 1), pixels = px_demo\<rparr>), next_ref = 1,
      files = Map.empty, save_raises = (\<lambda>p i. False), makedirs_raises = (\<lambda>p. False),
      open_raises = (\<lambda>p. False), console = []\<rparr>"

text \<open>
  An opaque black RGBA raster of a given size; a state whose source file and whose object
  at reference 0 are such a raster of 1024 x 559; the same with a raster of 300 x 559;
  the same as the first in an environment where every save raises; a table of two
  descriptors, the first one outside a 1024 x 559 source.
\<close>

definition img_flat :: "nat \<times> nat \<Rightarrow> image" where
  "img_flat sz = \<lparr>mode = RGBA, size_im = sz, pixels = (\<lambda>c. (0, 0, 0, 255))\<rparr>"

definition w_composite :: world where
  "w_composite =
     \<lparr>heap = (\<lambda>r. img_flat (1024, 559)), next_ref = 1,
      files = [SOURCE_IMAGE \<mapsto> Image_file (img_flat (1024, 559))],
      save_raises = (\<lambda>p i. False), makedirs_raises = (\<lambda>p. False),
      open_raises = (\<lambda>p. False), console = []\<rparr>"

definition w_narrow :: world where
  "w_narrow =
     \<lparr>heap = (\<lambda>r. img_flat (300, 559)), next_ref = 1,
      files = [SOURCE_IMAGE \<mapsto> Image_file (img_flat (300, 559))],
      save_raises = (\<lambda>p i. False), makedirs_raises = (\<lambda>p. False),
      open_raises = (\<lambda>p. False), console = []\<rparr>"


definition table_demo :: "asset list" where
  "table_demo = [(''a.png'', (2000, 12, 295, 115), ''outside''),
                 (''b.png'', (0, 12, 295, 115), ''inside'')]"

text \<open>
  A state whose file system holds a fighter sheet of a given size for \<open>alphabot\<close>, and a
  state whose file system holds an effect sheet of a given size for \<open>block\<close>; in both the
  environment refuses nothing.
\<close>

definition w_sheet :: "nat \<times> nat \<Rightarrow> world" where
  "w_sheet sz =
     \<lparr>heap = (\<lambda>r. img_flat sz), next_ref = 0,
      files = [sheet_path ''alphabot'' \<mapsto> Image_file (img_flat sz)],
      save_raises = (\<lambda>p i. False), makedirs_raises = (\<lambda>p. False),
      open_raises = (\<lambda>p. False), console = []\<rparr>"


section \<open>The loops of the filter\<close>

lemma putpixel_same: "pixels (heap w img) c = v \<Longrightarrow> putpixel img c v w = w"
  by (auto simp: putpixel_def)

lemma keyed_unfold:
  "keyed (r, g, b, a) = (if is_background (r, g, b, a) then (r, g, b, 0) else (r, g, b, a))"
  by (simp add: keyed_def)

lemma key_body_eq:
  "key_body img y x w = putpixel img (x, y) (keyed (pixels (heap w img) (x, y))) w"
proof (cases "pixels (heap w img) (x, y)")
  case (fields r g b a)
  show ?thesis
  proof (cases "is_background (r, g, b, a)")
    case True
    then show ?thesis using fields
      by (auto simp: key_body_def keyed_def is_background_def)
  next
    case False
    then have "keyed (r, g, b, a) = (r, g, b, a)" by (simp add: keyed_def)
    moreover have "key_body img y x w = w"
      using False fields by (auto simp: key_body_def is_background_def)
    ultimately show ?thesis using fields by (simp add: putpixel_same)
  qed
qed

lemma key_region_none: "key_region (\<lambda>c. False) img w = w"
  by (simp add: key_region_def)

lemma putpixel_key_region:
  "\<not> P c \<Longrightarrow>
   putpixel img c (keyed (pixels (heap (key_region P img w) img) c)) (key_region P img w) =
   key_region (\<lambda>c'. P c' \<or> c' = c) img w"
  by (auto simp: putpixel_def key_region_def fun_eq_iff intro!: arg_cong[where f="\<lambda>p. _\<lparr>pixels := p\<rparr>"])

lemma key_row:
  assumes "\<forall>x. \<not> P (x, y)"
  shows "fold (\<lambda>x. key_body img y x) [0..<n] (key_region P img w) =
         key_region (\<lambda>c. P c \<or> (snd c = y \<and> fst c < n)) img w"
proof (induction n)
  case 0
  show ?case by simp
next
  case (Suc n)
  let ?Q = "\<lambda>c. P c \<or> (snd c = y \<and> fst c < n)"
  have np: "\<not> ?Q (n, y)" using assms by simp
  have eq: "(\<lambda>c'. ?Q c' \<or> c' = (n, y)) = (\<lambda>c. P c \<or> (snd c = y \<and> fst c < Suc n))"
    by (auto simp: fun_eq_iff less_Suc_eq)
  have "fold (\<lambda>x. key_body img y x) [0..<Suc n] (key_region P img w) =
        key_body img y n (fold (\<lambda>x. key_body img y x) [0..<n] (key_region P img w))"
    by simp
  also have "\<dots> = key_body img y n (key_region ?Q img w)"
    by (simp only: Suc)
  also have "\<dots> = putpixel img (n, y) (keyed (pixels (heap (key_region ?Q img w) img) (n, y)))
                      (key_region ?Q img w)"
    by (rule key_body_eq)
  also have "\<dots> = key_region (\<lambda>c'. ?Q c' \<or> c' = (n, y)) img w"
    using np by (rule putpixel_key_region)
  finally show ?case by (simp only: eq)
qed

lemma key_rows:
  "fold (\<lambda>y. fold (\<lambda>x. key_body img y x) [0..<wd]) [0..<n] w =
   key_region (\<lambda>c. fst c < wd \<and> snd c < n) img w"
proof (induction n)
  case 0
  show ?case by (simp add: key_region_none)
next
  case (Suc n)
  let ?R = "\<lambda>c. fst c < wd \<and> snd c < n"
  have eq: "(\<lambda>c. ?R c \<or> (snd c = n \<and> fst c < wd)) = (\<lambda>c. fst c < wd \<and> snd c < Suc n)"
    by (auto simp: fun_eq_iff less_Suc_eq)
  have "fold (\<lambda>y. fold (\<lambda>x. key_body img y x) [0..<wd]) [0..<Suc n] w =
        fold (\<lambda>x. key_body img n x) [0..<wd]
          (fold (\<lambda>y. fold (\<lambda>x. key_body img y x) [0..<wd]) [0..<n] w)"
    by simp
  also have "\<dots> = fold (\<lambda>x. key_body img n x) [0..<wd] (key_region ?R img w)"
    by (simp only: Suc)
  also have "\<dots> = key_region (\<lambda>c. ?R c \<or> (snd c = n \<and> fst c < wd)) img w"
    by (rule key_row) simp
  finally show ?case by (simp only: eq)
qed

lemma rcb_RGBA:
  "mode (heap w img) = RGBA \<Longrightarrow>
   remove_checkered_background img w =
     (img, key_region (\<lambda>c. fst c < fst (size_im (heap w img)) \<and> snd c < snd (size_im (heap w img))) img w)"
  by (simp add: remove_checkered_background_def key_rows split: prod.splits)

lemma key_region_heap_other: "r \<noteq> img \<Longrightarrow> heap (key_region P img w) r = heap w r"
  by (simp add: key_region_def)

lemma key_region_pixels:
  "pixels (heap (key_region P img w) img) c =
     (if P c then keyed (pixels (heap w img) c) else pixels (heap w img) c)"
  by (simp add: key_region_def)

lemma key_region_mode: "mode (heap (key_region P img w) r) = mode (heap w r)"
  by (simp add: key_region_def)

lemma key_region_size: "size_im (heap (key_region P img w) r) = size_im (heap w r)"
  by (simp add: key_region_def)

lemma keyed_keyed: "keyed (keyed p) = keyed p"
  by (cases p) (auto simp: keyed_def is_background_def)

lemma key_region_twice: "key_region P img (key_region P img w) = key_region P img w"
  by (auto simp: key_region_def keyed_keyed fun_eq_iff
           intro!: arg_cong[where f="\<lambda>p. _\<lparr>pixels := p\<rparr>"])

lemma convert_RGBA_mode: "convert_RGBA img w = (r, w') \<Longrightarrow> mode (heap w' r) = RGBA"
  by (auto simp: convert_RGBA_def new_image_def as_RGBA_def)

lemma rcb_result_RGBA:
  "remove_checkered_background img w = (r, w') \<Longrightarrow> mode (heap w' r) = RGBA"
  by (auto simp: remove_checkered_background_def key_rows key_region_mode
           split: prod.splits if_splits dest: convert_RGBA_mode)

section \<open>One descriptor, and the loop over the table\<close>

lemma key_region_full:
  "key_region (\<lambda>c. fst c < fst (size_im (heap w img)) \<and> snd c < snd (size_im (heap w img))) img w
   = w\<lparr>heap := (heap w)(img := keyed_image (heap w img))\<rparr>"
  by (simp add: key_region_def keyed_image_def)

lemma crop_ok:
  "left \<le> right \<Longrightarrow> upper \<le> lower \<Longrightarrow>
   crop img (left, upper, right, lower) w =
     (Inr (next_ref w),
      w\<lparr>heap := (heap w)(next_ref w := cropped_image (heap w img) (left, upper, right, lower)),
        next_ref := Suc (next_ref w)\<rparr>)"
  by (simp add: crop_def new_image_def)

lemma crop_raises:
  "right < left \<or> lower < upper \<Longrightarrow> crop img (left, upper, right, lower) w = (Inl ValueError, w)"
  by (auto simp: crop_def)

lemma cropped_image_mode: "mode (cropped_image src bx) = mode src"
  by (cases bx) (simp add: cropped_image_def)

lemma extract_one_eq:
  assumes "mode (heap w source) = RGBA"
  shows "extract_one source (output_path, (x, y, wd, h), description) w =
     (case outcome (save_raises w) (heap w source) (output_path, (x, y, wd, h), description) of
        Some ValueError \<Rightarrow> (Inl ValueError, w)
      | Some OSError \<Rightarrow> (Inl OSError, with_extracted source (x, y, wd, h) w)
      | Some ZeroDivisionError \<Rightarrow> (Inl ZeroDivisionError, w)
      | Some SystemError \<Rightarrow> (Inl SystemError, with_extracted source (x, y, wd, h) w)
      | None \<Rightarrow>
          (Inr (),
           print (Ok_extracted output_path wd h)
             ((with_extracted source (x, y, wd, h) w)
                \<lparr>files := (files w)(os_path_join OUTPUT_BASE output_path \<mapsto>
                    Image_file (extracted_image (heap w source) (x, y, wd, h)))\<rparr>)))"
proof -
  obtain left upper right lower where
    cb: "crop_box (size_im (heap w source)) (x, y, wd, h) = (left, upper, right, lower)"
    using prod_cases4 by blast
  show ?thesis
  proof (cases "right < left \<or> lower < upper")
    case True
    then show ?thesis
      by (simp add: extract_one_def outcome_def cb crop_raises)
  next
    case False
    then have le: "left \<le> right" "upper \<le> lower" by auto
    let ?c = "next_ref w"
    let ?w1 = "w\<lparr>heap := (heap w)(?c := cropped_image (heap w source) (left, upper, right, lower)),
                  next_ref := Suc ?c\<rparr>"
    have m1: "mode (heap ?w1 ?c) = RGBA" using assms by (simp add: cropped_image_mode)
    have h1: "heap ?w1 ?c = cropped_image (heap w source) (left, upper, right, lower)"
      by simp
    have "key_region (\<lambda>c. fst c < fst (size_im (heap ?w1 ?c)) \<and> snd c < snd (size_im (heap ?w1 ?c))) ?c ?w1
             = ?w1\<lparr>heap := (heap ?w1)(?c := keyed_image (heap ?w1 ?c))\<rparr>"
      by (rule key_region_full)
    also have "\<dots> = with_extracted source (x, y, wd, h) w"
      unfolding h1 by (simp add: with_extracted_def extracted_image_def cb)
    finally have k: "key_region (\<lambda>c. fst c < fst (size_im (heap ?w1 ?c)) \<and> snd c < snd (size_im (heap ?w1 ?c))) ?c ?w1
             = with_extracted source (x, y, wd, h) w" .
    have rcb: "remove_checkered_background ?c ?w1 = (?c, with_extracted source (x, y, wd, h) w)"
      using rcb_RGBA[OF m1] k by simp
    show ?thesis using False
      by (simp add: extract_one_def outcome_def cb crop_ok[OF le] rcb save_PNG_def
               with_extracted_def save_error_def)
  qed
qed

lemma new_image_frame:
  "new_image im w = (r, w') \<Longrightarrow>
   r = next_ref w \<and> next_ref w' = Suc (next_ref w) \<and> heap w' r = im \<and>
   (\<forall>q. q \<noteq> next_ref w \<longrightarrow> heap w' q = heap w q) \<and>
   files w' = files w \<and> save_raises w' = save_raises w \<and> console w' = console w"
  by (auto simp: new_image_def)

lemma key_region_frame:
  "next_ref (key_region P img w) = next_ref w \<and> files (key_region P img w) = files w \<and>
   save_raises (key_region P img w) = save_raises w \<and> console (key_region P img w) = console w"
  by (simp add: key_region_def)

lemma rcb_frame:
  assumes "remove_checkered_background img w = (img', w')"
  shows "next_ref w \<le> next_ref w'" and "files w' = files w"
    and "save_raises w' = save_raises w" and "console w' = console w"
    and "\<And>r. r < next_ref w \<Longrightarrow> r \<noteq> img \<Longrightarrow> heap w' r = heap w r"
  using assms
  by (auto simp: remove_checkered_background_def key_rows key_region_frame key_region_def
        convert_RGBA_def new_image_def split: prod.splits if_splits)

lemma crop_frame:
  assumes "crop img bx w = (res, w')"
  shows "next_ref w \<le> next_ref w'" and "files w' = files w"
    and "save_raises w' = save_raises w" and "console w' = console w"
    and "\<And>r. r < next_ref w \<Longrightarrow> heap w' r = heap w r"
    and "\<And>c. res = Inr c \<Longrightarrow> c = next_ref w \<and> next_ref w' = Suc (next_ref w)"
  using assms
  by (auto simp: crop_def new_image_def split: prod.splits if_splits)

lemma save_PNG_frame:
  assumes "save_PNG img path w = (res, w')"
  shows "next_ref w' = next_ref w" and "heap w' = heap w"
    and "save_raises w' = save_raises w" and "console w' = console w"
  using assms by (auto simp: save_PNG_def split: option.splits)

lemma print_frame:
  "next_ref (print m w) = next_ref w" "heap (print m w) = heap w"
  "save_raises (print m w) = save_raises w" "files (print m w) = files w"
  "console (print m w) = console w @ [m]"
  by (simp_all add: print_def)

lemma extract_one_frame:
  assumes "extract_one source asset w = (res, w')"
  shows "next_ref w \<le> next_ref w'"
    and "save_raises w' = save_raises w"
    and "\<And>r. r < next_ref w \<Longrightarrow> heap w' r = heap w r"
proof -
  obtain output_path x y wd h description where a: "asset = (output_path, (x, y, wd, h), description)"
    by (metis prod_cases3 prod_cases4)
  obtain cres w1 where c: "crop source (crop_box (size_im (heap w source)) (x, y, wd, h)) w = (cres, w1)"
    by fastforce
  note cf = crop_frame[OF c]
  show "next_ref w \<le> next_ref w'" "save_raises w' = save_raises w"
    "\<And>r. r < next_ref w \<Longrightarrow> heap w' r = heap w r"
  proof (atomize (full), cases cres)
    case (Inl e)
    then show "next_ref w \<le> next_ref w' \<and> save_raises w' = save_raises w \<and>
               (\<forall>r. r < next_ref w \<longrightarrow> heap w' r = heap w r)"
      using assms cf by (auto simp: extract_one_def a c)
  next
    case (Inr cropped)
    obtain cropped' w2 where k: "remove_checkered_background cropped w1 = (cropped', w2)"
      by fastforce
    note kf = rcb_frame[OF k]
    obtain sres w3 where sv: "save_PNG cropped' (os_path_join OUTPUT_BASE output_path) w2 = (sres, w3)"
      by fastforce
    note sf = save_PNG_frame[OF sv]
    have cr: "cropped = next_ref w" "next_ref w1 = Suc (next_ref w)" using cf(6)[OF Inr] by auto
    have "w' = w3 \<or> w' = print (Ok_extracted output_path wd h) w3"
      using assms by (auto simp: extract_one_def a c Inr k sv split: sum.splits)
    moreover have "next_ref w \<le> next_ref w3" using cf(1) kf(1) sf(1) by simp
    moreover have "save_raises w3 = save_raises w" using cf(3) kf(3) sf(3) by simp
    moreover have "\<forall>r. r < next_ref w \<longrightarrow> heap w3 r = heap w r"
      using cf(5) kf(5) sf(2) cr by auto
    ultimately show "next_ref w \<le> next_ref w' \<and> save_raises w' = save_raises w \<and>
               (\<forall>r. r < next_ref w \<longrightarrow> heap w' r = heap w r)"
      by (auto simp: print_frame)
  qed
qed

lemma extract_step_frame:
  assumes "extract_step source asset (n, w) = (n', w')"
  shows "next_ref w \<le> next_ref w'"
    and "save_raises w' = save_raises w"
    and "\<And>r. r < next_ref w \<Longrightarrow> heap w' r = heap w r"
proof -
  obtain res w1 where e: "extract_one source asset w = (res, w1)" by fastforce
  note f = extract_one_frame[OF e]
  have "w' = w1 \<or> (\<exists>m. w' = print m w1)"
    using assms by (auto simp: extract_step_def e split: sum.splits)
  then show "next_ref w \<le> next_ref w'" "save_raises w' = save_raises w"
    "\<And>r. r < next_ref w \<Longrightarrow> heap w' r = heap w r"
    using f by (auto simp: print_frame)
qed

lemma extract_fold_frame:
  "fold (extract_step source) table (n, w) = (n', w') \<Longrightarrow>
   next_ref w \<le> next_ref w' \<and> save_raises w' = save_raises w \<and>
   (\<forall>r. r < next_ref w \<longrightarrow> heap w' r = heap w r)"
proof (induction table arbitrary: n w)
  case Nil
  then show ?case by simp
next
  case (Cons a table)
  obtain n1 w1 where s: "extract_step source a (n, w) = (n1, w1)" by fastforce
  note f = extract_step_frame[OF s]
  have "fold (extract_step source) table (n1, w1) = (n', w')" using Cons.prems s by simp
  from Cons.IH[OF this] f show ?case by auto
qed

lemma extract_step_report:
  assumes "mode (heap w source) = RGBA"
    and "extract_step source asset (n, w) = (n', w')"
  shows "n' = n + (if outcome (save_raises w) (heap w source) asset = None then 1 else 0)"
    and "console w' = console w @ [report (save_raises w) (heap w source) asset]"
proof -
  obtain output_path x y wd h description where a: "asset = (output_path, (x, y, wd, h), description)"
    by (metis prod_cases3 prod_cases4)
  note e = extract_one_eq[OF assms(1), of output_path x y wd h description]
  show "n' = n + (if outcome (save_raises w) (heap w source) asset = None then 1 else 0)"
    using assms(2)
    by (auto simp: a extract_step_def e split: option.splits error.splits)
  show "console w' = console w @ [report (save_raises w) (heap w source) asset]"
    using assms(2)
    by (auto simp: a extract_step_def e print_frame with_extracted_def report_def
             split: option.splits error.splits)
qed

lemma extract_fold_report:
  assumes "mode (heap w source) = RGBA" and "source < next_ref w"
    and "fold (extract_step source) table (n, w) = (n', w')"
  shows "n' = n + length (filter (\<lambda>a. outcome (save_raises w) (heap w source) a = None) table) \<and>
         console w' = console w @ map (report (save_raises w) (heap w source)) table"
  using assms
proof (induction table arbitrary: n w)
  case Nil
  then show ?case by simp
next
  case (Cons a table)
  obtain n1 w1 where s: "extract_step source a (n, w) = (n1, w1)" by fastforce
  note f = extract_step_frame[OF s]
  note r = extract_step_report[OF Cons.prems(1) s]
  have h: "heap w1 source = heap w source" using f(3) Cons.prems(2) by simp
  have m1: "mode (heap w1 source) = RGBA" using h Cons.prems(1) by simp
  have l1: "source < next_ref w1" using f(1) Cons.prems(2) by simp
  have "fold (extract_step source) table (n1, w1) = (n', w')" using Cons.prems(3) s by simp
  from Cons.IH[OF m1 l1 this] show ?case
    using r by (simp add: h f(2))
qed

lemma loaded_mode: "mode (loaded im) = RGBA"
  by (simp add: loaded_def as_RGBA_def)

lemma loaded_size: "size_im (loaded im) = size_im im"
  by (simp add: loaded_def as_RGBA_def)

lemma Image_open_ok:
  "files w path = Some (Image_file im) \<Longrightarrow>
   Image_open path w =
     (Inr (next_ref w), w\<lparr>heap := (heap w)(next_ref w := im), next_ref := Suc (next_ref w)\<rparr>)"
  by (simp add: Image_open_def new_image_def)


lemma ensure_RGBA:
  assumes "heap w1 r = im" and "r < next_ref w1"
    and "(if mode (heap w1 r) \<noteq> RGBA then convert_RGBA r w1 else (r, w1)) = (source, w2)"
  shows "heap w2 source = loaded im" and "source < next_ref w2"
    and "save_raises w2 = save_raises w1" and "console w2 = console w1"
    and "files w2 = files w1"
  using assms
  by (auto simp: convert_RGBA_def new_image_def loaded_def split: if_splits)

lemma extract_assets_over_loaded:
  assumes "files w source_path = Some (Image_file im)"
  shows "\<exists>w'. extract_assets_over table source_path w = (True, w') \<and>
     console w' = console w @ [Loading_source source_path, Image_size (size_im im), Image_mode RGBA]
        @ map (report (save_raises w) (loaded im)) table
        @ [Extracted_count (length (filter (\<lambda>a. outcome (save_raises w) (loaded im) a = None) table))
             (length table)]"
proof -
  let ?w0 = "print (Loading_source source_path) w"
  let ?r = "next_ref ?w0"
  let ?w1 = "?w0\<lparr>heap := (heap ?w0)(?r := im), next_ref := Suc ?r\<rparr>"
  have f0: "files ?w0 source_path = Some (Image_file im)" using assms by (simp add: print_frame)
  have o: "Image_open source_path ?w0 = (Inr ?r, ?w1)" by (rule Image_open_ok[OF f0])
  obtain source w2 where
    c: "(if mode (heap ?w1 ?r) \<noteq> RGBA then convert_RGBA ?r ?w1 else (?r, ?w1)) = (source, w2)"
    by fastforce
  have h1: "heap ?w1 ?r = im" and l1: "?r < next_ref ?w1" by simp_all
  note p = ensure_RGBA[OF h1 l1 c]
  let ?w3 = "print (Image_mode (mode (heap w2 source))) (print (Image_size (size_im (heap w2 source))) w2)"
  obtain n' w4 where f: "fold (extract_step source) table (0, ?w3) = (n', w4)" by fastforce
  have m3: "mode (heap ?w3 source) = RGBA" by (simp add: print_frame p(1) loaded_mode)
  have l3: "source < next_ref ?w3" using p(2) by (simp add: print_frame)
  note r = extract_fold_report[OF m3 l3 f]
  have e: "extract_assets_over table source_path w =
        (True, print (Extracted_count n' (length table)) w4)"
    by (simp only: extract_assets_over_def o c f sum.case prod.case)
  have sr: "save_raises ?w3 = save_raises w" by (simp add: print_frame p(3))
  have co: "console ?w3 = console w @ [Loading_source source_path, Image_size (size_im im), Image_mode RGBA]"
    by (simp add: print_frame p(1,4) loaded_mode loaded_size)
  have h3: "heap ?w3 source = loaded im" by (simp add: print_frame p(1))
  show ?thesis
    unfolding e using r unfolding sr co h3
    by (simp add: print_frame)
qed


lemma extracted_image_size:
  "size_im (extracted_image src region) =
     (case crop_box (size_im src) region of (left, upper, right, lower) \<Rightarrow>
        (nat (right - left), nat (lower - upper)))"
  by (simp add: extracted_image_def keyed_image_def cropped_image_def split: prod.splits)

section \<open>Loops that may raise\<close>

lemma for_loop_preserves:
  assumes "\<And>x acc w. f (snd (body x acc w)) = f w"
  shows "f (snd (for_loop xs body acc w)) = f w"
proof (induction xs arbitrary: acc w)
  case Nil
  show ?case by simp
next
  case (Cons x xs)
  obtain r w' where b: "body x acc w = (r, w')" by fastforce
  have fw: "f w' = f w" using assms[of x acc w] b by simp
  show ?case
  proof (cases r)
    case (Inl e)
    then show ?thesis using b fw by simp
  next
    case (Inr a)
    then show ?thesis using b fw Cons.IH[of a w'] by simp
  qed
qed



section \<open>The loops of the fighter slicer\<close>

lemma upt_0_2: "[0..<2] = [0, 1]"
  by (simp add: upt_rec)

lemma upt_0_4: "[0..<4] = [0, 1, 2, 3]"
  by (simp add: upt_rec)

lemma anim_names:
  "anim_name 0 = ''idle''" "anim_name 1 = ''walk''" "anim_name 2 = ''jump''"
  "anim_name 3 = ''attack1''" "anim_name 4 = ''attack2''" "anim_name 5 = ''special''"
  "anim_name 6 = ''hit''" "anim_name 7 = ''ko''"
  by (simp_all add: anim_name_def animations_def)

lemma anim_names_Suc:
  "anim_name (Suc 0) = ''walk''" "anim_name (Suc (Suc 0)) = ''jump''"
  "anim_name (Suc (Suc (Suc 0))) = ''attack1''"
  "anim_name (Suc (Suc (Suc (Suc 0)))) = ''attack2''"
  "anim_name (Suc (Suc (Suc (Suc (Suc 0))))) = ''special''"
  "anim_name (Suc (Suc (Suc (Suc (Suc (Suc 0)))))) = ''hit''"
  "anim_name (Suc (Suc (Suc (Suc (Suc (Suc (Suc 0))))))) = ''ko''"
  by (simp_all add: anim_name_def animations_def)

lemma anim_name_fallback: "8 \<le> n \<Longrightarrow> anim_name n = ''frame_'' @ str n"
  by (simp add: anim_name_def animations_def)

lemma frame_box_size: "size_im (cropped_image S (frame_box fw fh row col)) = (fw, fh)"
  by (simp add: cropped_image_def frame_box_def)

lemma fighter_frame_ok:
  assumes "\<And>p i. \<not> save_raises w p i" and "0 < fw" and "0 < fh"
  shows "fighter_frame sheet out fw fh row col idx w =
     (Inr (Suc idx),
      w\<lparr>heap := (heap w)(next_ref w := cropped_image (heap w sheet) (frame_box fw fh row col)),
        next_ref := Suc (next_ref w),
        files := (files w)(os_path_join out (anim_name idx @ ''.png'') \<mapsto>
                   Image_file (cropped_image (heap w sheet) (frame_box fw fh row col)))\<rparr>)"
proof -
  let ?B = "frame_box fw fh row col"
  have se: "save_error (save_raises w) p (cropped_image (heap w sheet) ?B) = None" for p
    using assms by (simp add: save_error_def frame_box_size)
  have c: "crop sheet ?B w =
             (Inr (next_ref w),
              w\<lparr>heap := (heap w)(next_ref w := cropped_image (heap w sheet) ?B),
                next_ref := Suc (next_ref w)\<rparr>)"
    unfolding frame_box_def by (rule crop_ok) simp_all
  have "fighter_frame sheet out fw fh row col idx w =
          (case crop sheet ?B w of
             (Inl e, w1) \<Rightarrow> (Inl e, w1)
           | (Inr frame, w1) \<Rightarrow>
               (case save_PNG frame (os_path_join out (anim_name idx @ ''.png'')) w1 of
                  (Inl e, w2) \<Rightarrow> (Inl e, w2)
                | (Inr u, w2) \<Rightarrow> (Inr (idx + 1), w2)))"
    by (simp add: fighter_frame_def Let_def frame_box_def)
  then show ?thesis
    by (simp add: c save_PNG_def se)
qed

lemma fighter_loops_ok:
  assumes sr: "\<And>p i. \<not> save_raises w p i" and h: "heap w sheet = S" and l: "sheet < next_ref w"
    and fw: "0 < fw" and fh: "0 < fh"
  shows "\<exists>W. for_loop [0..<2] (\<lambda>row. for_loop [0..<4] (fighter_frame sheet out fw fh row)) 0 w
              = (Inr 8, W) \<and>
             console W = console w \<and>
             files W = (files w)
               (os_path_join out ''idle.png'' \<mapsto> Image_file (cropped_image S (frame_box fw fh 0 0)),
                os_path_join out ''walk.png'' \<mapsto> Image_file (cropped_image S (frame_box fw fh 0 1)),
                os_path_join out ''jump.png'' \<mapsto> Image_file (cropped_image S (frame_box fw fh 0 2)),
                os_path_join out ''attack1.png'' \<mapsto> Image_file (cropped_image S (frame_box fw fh 0 3)),
                os_path_join out ''attack2.png'' \<mapsto> Image_file (cropped_image S (frame_box fw fh 1 0)),
                os_path_join out ''special.png'' \<mapsto> Image_file (cropped_image S (frame_box fw fh 1 1)),
                os_path_join out ''hit.png'' \<mapsto> Image_file (cropped_image S (frame_box fw fh 1 2)),
                os_path_join out ''ko.png'' \<mapsto> Image_file (cropped_image S (frame_box fw fh 1 3)))"
  using sr h l fw fh
  by (simp add: upt_0_2 upt_0_4 fighter_frame_ok anim_names anim_names_Suc)

lemma split_fighter_files:
  assumes f: "files w (sheet_path fighter_name) = Some (Image_file sheet)"
    and sr: "\<And>p i. \<not> save_raises w p i"
    and sz: "size_im sheet = (sw, sh)"
    and big: "4 \<le> sw" "2 \<le> sh"
  shows "files (split_fighter_spritesheet fighter_name w) = (files w)
           (frame_path fighter_name ''idle'' \<mapsto> Image_file (cropped_image (loaded sheet) (frame_box (sw div 4) (sh div 2) 0 0)),
            frame_path fighter_name ''walk'' \<mapsto> Image_file (cropped_image (loaded sheet) (frame_box (sw div 4) (sh div 2) 0 1)),
            frame_path fighter_name ''jump'' \<mapsto> Image_file (cropped_image (loaded sheet) (frame_box (sw div 4) (sh div 2) 0 2)),
            frame_path fighter_name ''attack1'' \<mapsto> Image_file (cropped_image (loaded sheet) (frame_box (sw div 4) (sh div 2) 0 3)),
            frame_path fighter_name ''attack2'' \<mapsto> Image_file (cropped_image (loaded sheet) (frame_box (sw div 4) (sh div 2) 1 0)),
            frame_path fighter_name ''special'' \<mapsto> Image_file (cropped_image (loaded sheet) (frame_box (sw div 4) (sh div 2) 1 1)),
            frame_path fighter_name ''hit'' \<mapsto> Image_file (cropped_image (loaded sheet) (frame_box (sw div 4) (sh div 2) 1 2)),
            frame_path fighter_name ''ko'' \<mapsto> Image_file (cropped_image (loaded sheet) (frame_box (sw div 4) (sh div 2) 1 3)))"
    and "console (split_fighter_spritesheet fighter_name w) =
           console w @ [Sheet_info fighter_name (sw, sh) (sw div 4, sh div 2), Ok_split fighter_name 8]"
proof -
  let ?sp = "os_path_join OUTPUT_BASE (''sprites/fighters/'' @ fighter_name @ ''/spritesheet.png'')"
  let ?out = "os_path_join OUTPUT_BASE (''sprites/fighters/'' @ fighter_name)"
  let ?r = "next_ref w"
  let ?w1 = "w\<lparr>heap := (heap w)(?r := sheet), next_ref := Suc ?r\<rparr>"
  have f': "files w ?sp = Some (Image_file sheet)" using f by (simp add: sheet_path_def)
  have o: "Image_open ?sp w = (Inr ?r, ?w1)" by (rule Image_open_ok[OF f'])
  obtain sh0 w2 where
    c: "(if mode (heap ?w1 ?r) \<noteq> RGBA then convert_RGBA ?r ?w1 else (?r, ?w1)) = (sh0, w2)"
    by fastforce
  have h1: "heap ?w1 ?r = sheet" and l1: "?r < next_ref ?w1" by simp_all
  note p = ensure_RGBA[OF h1 l1 c]
  let ?w3 = "print (Sheet_info fighter_name (sw, sh) (sw div 4, sh div 2)) w2"
  have sr3: "\<And>p i. \<not> save_raises ?w3 p i" using sr by (simp add: print_frame p(3))
  have h3: "heap ?w3 sh0 = loaded sheet" by (simp add: print_frame p(1))
  have l3: "sh0 < next_ref ?w3" using p(2) by (simp add: print_frame)
  obtain W where
    lp: "for_loop [0..<2] (\<lambda>row. for_loop [0..<4] (fighter_frame sh0 ?out (sw div 4) (sh div 2) row)) 0 ?w3
           = (Inr 8, W)"
    and cW: "console W = console ?w3"
    and fW: "files W = (files ?w3)
               (os_path_join ?out ''idle.png'' \<mapsto> Image_file (cropped_image (loaded sheet) (frame_box (sw div 4) (sh div 2) 0 0)),
                os_path_join ?out ''walk.png'' \<mapsto> Image_file (cropped_image (loaded sheet) (frame_box (sw div 4) (sh div 2) 0 1)),
                os_path_join ?out ''jump.png'' \<mapsto> Image_file (cropped_image (loaded sheet) (frame_box (sw div 4) (sh div 2) 0 2)),
                os_path_join ?out ''attack1.png'' \<mapsto> Image_file (cropped_image (loaded sheet) (frame_box (sw div 4) (sh div 2) 0 3)),
                os_path_join ?out ''attack2.png'' \<mapsto> Image_file (cropped_image (loaded sheet) (frame_box (sw div 4) (sh div 2) 1 0)),
                os_path_join ?out ''special.png'' \<mapsto> Image_file (cropped_image (loaded sheet) (frame_box (sw div 4) (sh div 2) 1 1)),
                os_path_join ?out ''hit.png'' \<mapsto> Image_file (cropped_image (loaded sheet) (frame_box (sw div 4) (sh div 2) 1 2)),
                os_path_join ?out ''ko.png'' \<mapsto> Image_file (cropped_image (loaded sheet) (frame_box (sw div 4) (sh div 2) 1 3)))"
    using fighter_loops_ok[OF sr3 h3 l3, of "sw div 4" "sh div 2" ?out] big
    by (auto simp: div_greater_zero_iff)
  have s2: "size_im (heap w2 sh0) = (sw, sh)" by (simp add: p(1) loaded_size sz)
  have t: "split_fighter_try fighter_name ?sp ?out w = (Inr (), print (Ok_split fighter_name 8) W)"
    by (simp only: split_fighter_try_def o c s2 Let_def lp sum.case prod.case)
  have e: "split_fighter_spritesheet fighter_name w = print (Ok_split fighter_name 8) W"
    by (simp only: split_fighter_spritesheet_def Let_def f' t option.distinct if_False
          prod.case sum.case)
  show "files (split_fighter_spritesheet fighter_name w) = (files w)
           (frame_path fighter_name ''idle'' \<mapsto> Image_file (cropped_image (loaded sheet) (frame_box (sw div 4) (sh div 2) 0 0)),
            frame_path fighter_name ''walk'' \<mapsto> Image_file (cropped_image (loaded sheet) (frame_box (sw div 4) (sh div 2) 0 1)),
            frame_path fighter_name ''jump'' \<mapsto> Image_file (cropped_image (loaded sheet) (frame_box (sw div 4) (sh div 2) 0 2)),
            frame_path fighter_name ''attack1'' \<mapsto> Image_file (cropped_image (loaded sheet) (frame_box (sw div 4) (sh div 2) 0 3)),
            frame_path fighter_name ''attack2'' \<mapsto> Image_file (cropped_image (loaded sheet) (frame_box (sw div 4) (sh div 2) 1 0)),
            frame_path fighter_name ''special'' \<mapsto> Image_file (cropped_image (loaded sheet) (frame_box (sw div 4) (sh div 2) 1 1)),
            frame_path fighter_name ''hit'' \<mapsto> Image_file (cropped_image (loaded sheet) (frame_box (sw div 4) (sh div 2) 1 2)),
            frame_path fighter_name ''ko'' \<mapsto> Image_file (cropped_image (loaded sheet) (frame_box (sw div 4) (sh div 2) 1 3)))"
    unfolding e by (simp add: print_frame fW p(5) frame_path_def)
  show "console (split_fighter_spritesheet fighter_name w) =
           console w @ [Sheet_info fighter_name (sw, sh) (sw div 4, sh div 2), Ok_split fighter_name 8]"
    unfolding e by (simp add: print_frame cW p(4))
qed

lemma less_8_cases:
  "i < 8 \<Longrightarrow> i = 0 \<or> i = 1 \<or> i = 2 \<or> i = 3 \<or> i = 4 \<or> i = 5 \<or> i = 6 \<or> i = (7::nat)"
  by arith

lemma frame_path_inj: "frame_path n a = frame_path n b \<longleftrightarrow> a = b"
  by (simp add: frame_path_def os_path_join_def)

lemma cropped_frame:
  assumes "size_im S = (sw, sh)" and "col < 4" and "row < 2"
  shows "size_im (cropped_image S (frame_box (sw div 4) (sh div 2) row col)) = (sw div 4, sh div 2)"
    and "\<And>x y. x < sw div 4 \<Longrightarrow> y < sh div 2 \<Longrightarrow>
           col * (sw div 4) + x < sw \<and> row * (sh div 2) + y < sh \<and>
           pixels (cropped_image S (frame_box (sw div 4) (sh div 2) row col)) (x, y) =
           pixels S (col * (sw div 4) + x, row * (sh div 2) + y)"
proof -
  show "size_im (cropped_image S (frame_box (sw div 4) (sh div 2) row col)) = (sw div 4, sh div 2)"
    by (simp add: cropped_image_def frame_box_def)
  fix x y assume x: "x < sw div 4" and y: "y < sh div 2"
  have "col * (sw div 4) + x < (col + 1) * (sw div 4)" using x by simp
  also have "\<dots> \<le> 4 * (sw div 4)" using assms(2) by (intro mult_le_mono1) simp
  also have "\<dots> \<le> sw" by simp
  finally have cx: "col * (sw div 4) + x < sw" .
  have "row * (sh div 2) + y < (row + 1) * (sh div 2)" using y by simp
  also have "\<dots> \<le> 2 * (sh div 2)" using assms(3) by (intro mult_le_mono1) simp
  also have "\<dots> \<le> sh" by simp
  finally have cy: "row * (sh div 2) + y < sh" .
  have ix: "int (col * (sw div 4)) + int x < int sw" using cx by linarith
  have iy: "int (row * (sh div 2)) + int y < int sh" using cy by linarith
  show "col * (sw div 4) + x < sw \<and> row * (sh div 2) + y < sh \<and>
           pixels (cropped_image S (frame_box (sw div 4) (sh div 2) row col)) (x, y) =
           pixels S (col * (sw div 4) + x, row * (sh div 2) + y)"
    using cx cy ix iy assms(1)
    by (simp add: cropped_image_def frame_box_def nat_int_add del: of_nat_mult of_nat_add)
qed

lemma split_fighter_frame:
  assumes f: "files w (sheet_path fighter_name) = Some (Image_file sheet)"
    and sr: "\<And>p i. \<not> save_raises w p i"
    and sz: "size_im sheet = (sw, sh)"
    and big: "4 \<le> sw" "2 \<le> sh"
    and i: "i < 8"
  shows "files (split_fighter_spritesheet fighter_name w) (frame_path fighter_name (frame_names ! i)) =
           Some (Image_file (cropped_image (loaded sheet) (frame_box (sw div 4) (sh div 2) (i div 4) (i mod 4))))"
  using less_8_cases[OF i]
  by (elim disjE)
     (simp_all add: split_fighter_files(1)[OF f sr sz big] frame_names_def frame_path_inj)

lemma crop_snd:
  "console (snd (crop img bx w)) = console w"
  "dirs_env (snd (crop img bx w)) = dirs_env w"
  "files (snd (crop img bx w)) = files w"
  "save_raises (snd (crop img bx w)) = save_raises w"
  by (auto simp: crop_def new_image_def dirs_env_def split: prod.splits)

lemma save_PNG_snd:
  "console (snd (save_PNG img path w)) = console w"
  "dirs_env (snd (save_PNG img path w)) = dirs_env w"
  "save_raises (snd (save_PNG img path w)) = save_raises w"
  by (auto simp: save_PNG_def dirs_env_def split: option.splits)

lemma fighter_frame_console:
  "console (snd (fighter_frame sheet out fw fh row col idx w)) = console w"
  by (simp add: fighter_frame_def Let_def split_beta sum.case_eq_if crop_snd save_PNG_snd)

lemma fighter_loops_console:
  "console (snd (for_loop rows (\<lambda>row. for_loop cols (fighter_frame sheet out fw fh row)) acc w))
   = console w"
  by (intro for_loop_preserves fighter_frame_console)

lemma fighter_frame_empty:
  assumes "fw = 0 \<or> fh = 0" and "\<And>p i. \<not> save_raises w p i"
  shows "\<exists>W. fighter_frame sheet out fw fh row col idx w = (Inl SystemError, W) \<and>
             files W = files w"
proof -
  let ?B = "frame_box fw fh row col"
  have se: "save_error (save_raises w) p (cropped_image (heap w sheet) ?B) = Some SystemError" for p
    using assms by (auto simp: save_error_def frame_box_size)
  have c: "crop sheet ?B w =
             (Inr (next_ref w),
              w\<lparr>heap := (heap w)(next_ref w := cropped_image (heap w sheet) ?B),
                next_ref := Suc (next_ref w)\<rparr>)"
    unfolding frame_box_def by (rule crop_ok) simp_all
  have "fighter_frame sheet out fw fh row col idx w =
          (case crop sheet ?B w of
             (Inl e, w1) \<Rightarrow> (Inl e, w1)
           | (Inr frame, w1) \<Rightarrow>
               (case save_PNG frame (os_path_join out (anim_name idx @ ''.png'')) w1 of
                  (Inl e, w2) \<Rightarrow> (Inl e, w2)
                | (Inr u, w2) \<Rightarrow> (Inr (idx + 1), w2)))"
    by (simp add: fighter_frame_def Let_def frame_box_def)
  then show ?thesis
    by (simp add: c save_PNG_def se)
qed

lemma split_fighter_console:
  assumes f: "files w (sheet_path fighter_name) = Some (Image_file sheet)"
    and sz: "size_im sheet = (sw, sh)"
  shows "\<exists>m. console (split_fighter_spritesheet fighter_name w) =
           console w @ [Sheet_info fighter_name (sw, sh) (sw div 4, sh div 2), m]"
    and "sw < 4 \<or> sh < 2 \<Longrightarrow> (\<And>p i. \<not> save_raises w p i) \<Longrightarrow>
           files (split_fighter_spritesheet fighter_name w) = files w \<and>
           console (split_fighter_spritesheet fighter_name w) =
             console w @ [Sheet_info fighter_name (sw, sh) (sw div 4, sh div 2),
                          Error_splitting fighter_name SystemError]"
proof -
  let ?sp = "os_path_join OUTPUT_BASE (''sprites/fighters/'' @ fighter_name @ ''/spritesheet.png'')"
  let ?out = "os_path_join OUTPUT_BASE (''sprites/fighters/'' @ fighter_name)"
  let ?r = "next_ref w"
  let ?w1 = "w\<lparr>heap := (heap w)(?r := sheet), next_ref := Suc ?r\<rparr>"
  have f': "files w ?sp = Some (Image_file sheet)" using f by (simp add: sheet_path_def)
  have o: "Image_open ?sp w = (Inr ?r, ?w1)" by (rule Image_open_ok[OF f'])
  obtain sh0 w2 where
    c: "(if mode (heap ?w1 ?r) \<noteq> RGBA then convert_RGBA ?r ?w1 else (?r, ?w1)) = (sh0, w2)"
    by fastforce
  have h1: "heap ?w1 ?r = sheet" and l1: "?r < next_ref ?w1" by simp_all
  note p = ensure_RGBA[OF h1 l1 c]
  let ?w3 = "print (Sheet_info fighter_name (sw, sh) (sw div 4, sh div 2)) w2"
  let ?loop = "for_loop [0..<2]
                 (\<lambda>row. for_loop [0..<4] (fighter_frame sh0 ?out (sw div 4) (sh div 2) row)) 0 ?w3"
  obtain res W where lp: "?loop = (res, W)" by fastforce
  have cW: "console W = console ?w3"
    using fighter_loops_console[of "[0..<2]" "[0..<4]" sh0 ?out "sw div 4" "sh div 2" 0 ?w3] lp
    by simp
  have s2: "size_im (heap w2 sh0) = (sw, sh)" by (simp add: p(1) loaded_size sz)
  have t: "split_fighter_try fighter_name ?sp ?out w =
             (case res of Inl e \<Rightarrow> (Inl e, W)
                        | Inr frame_idx \<Rightarrow> (Inr (), print (Ok_split fighter_name frame_idx) W))"
    by (cases res) (simp_all only: split_fighter_try_def o c s2 Let_def lp sum.case prod.case)
  have e: "split_fighter_spritesheet fighter_name w =
             (case res of Inl e \<Rightarrow> print (Error_splitting fighter_name e) W
                        | Inr frame_idx \<Rightarrow> print (Ok_split fighter_name frame_idx) W)"
    by (cases res)
       (simp_all only: split_fighter_spritesheet_def Let_def f' t option.distinct if_False
          prod.case sum.case)
  show "\<exists>m. console (split_fighter_spritesheet fighter_name w) =
           console w @ [Sheet_info fighter_name (sw, sh) (sw div 4, sh div 2), m]"
    unfolding e by (cases res) (simp_all add: print_frame cW p(4))
  assume tiny: "sw < 4 \<or> sh < 2" and sr: "\<And>p i. \<not> save_raises w p i"
  have z: "sw div 4 = 0 \<or> sh div 2 = 0" using tiny by auto
  have sr3: "\<And>p i. \<not> save_raises ?w3 p i" using sr by (simp add: print_frame p(3))
  obtain W0 where
    ff: "fighter_frame sh0 ?out (sw div 4) (sh div 2) 0 0 0 ?w3 = (Inl SystemError, W0)"
    and fW0: "files W0 = files ?w3"
    using fighter_frame_empty[OF z sr3] by blast
  have "?loop = (Inl SystemError, W0)"
    by (simp only: upt_0_2 upt_0_4 for_loop.simps ff prod.case sum.case)
  then have r: "res = Inl SystemError" "W = W0" using lp by simp_all
  show "files (split_fighter_spritesheet fighter_name w) = files w \<and>
        console (split_fighter_spritesheet fighter_name w) =
          console w @ [Sheet_info fighter_name (sw, sh) (sw div 4, sh div 2),
                       Error_splitting fighter_name SystemError]"
    unfolding e r by (simp add: print_frame fW0 p(4,5) cW[unfolded r])
qed

section \<open>The answers of the environment through the run\<close>


lemma dirs_env_new_image: "dirs_env (snd (new_image im w)) = dirs_env w"
  by (simp add: dirs_env_def new_image_def)

lemma dirs_env_convert: "dirs_env (snd (convert_RGBA img w)) = dirs_env w"
  by (simp add: convert_RGBA_def dirs_env_new_image)

lemma dirs_env_ensure:
  "dirs_env (snd (if mode (heap w r) \<noteq> RGBA then convert_RGBA r w else (r, w))) = dirs_env w"
  by (simp add: dirs_env_convert)























section \<open>The loop of the effect slicer\<close>













section \<open>Properties of the background-keying filter\<close>

text \<open>
  Claim C2. For every pixel \<open>(r, g, b, a)\<close> of an RGBA image, the filter mutates the image
  it is given, and afterwards the pixel is \<open>(r, g, b, 0)\<close> if and only if the three
  pairwise channel differences are below 10 and the gray level \<open>r\<close> lies in the inclusive
  band 180..220; every other pixel is exactly as before.
\<close>

theorem keying_sets_alpha_iff_background:
  assumes "mode (heap w img) = RGBA"
    and "size_im (heap w img) = (width, height)"
    and "x < width" and "y < height"
    and "pixels (heap w img) (x, y) = (r, g, b, a)"
    and "remove_checkered_background img w = (img', w')"
  shows "img' = img \<and>
         pixels (heap w' img) (x, y) =
           (if \<bar>int r - int g\<bar> < 10 \<and> \<bar>int g - int b\<bar> < 10 \<and> \<bar>int r - int b\<bar> < 10 \<and>
               180 \<le> r \<and> r \<le> 220
            then (r, g, b, 0) else (r, g, b, a))"
  using assms by (auto simp: rcb_RGBA key_region_pixels keyed_def is_background_def)

text \<open>
  The two pixels of the scenario: keying \<open>(200, 200, 200, 255)\<close> gives alpha 0, keying
  \<open>(200, 0, 0, 255)\<close> leaves alpha 255.
\<close>

theorem keying_sets_alpha_iff_background_witness:
  "mode (heap w_demo 0) = RGBA \<and> size_im (heap w_demo 0) = (2, 1) \<and>
   pixels (heap w_demo 0) (0, 0) = (200, 200, 200, 255) \<and>
   pixels (heap w_demo 0) (1, 0) = (200, 0, 0, 255) \<and>
   pixels (heap (snd (remove_checkered_background 0 w_demo)) 0) (0, 0) = (200, 200, 200, 0) \<and>
   pixels (heap (snd (remove_checkered_background 0 w_demo)) 0) (1, 0) = (200, 0, 0, 255)"
proof -
  have m: "mode (heap w_demo 0) = RGBA" and s: "size_im (heap w_demo 0) = (2, 1)"
    and p0: "pixels (heap w_demo 0) (0, 0) = (200, 200, 200, 255)"
    and p1: "pixels (heap w_demo 0) (1, 0) = (200, 0, 0, 255)"
    by (simp_all add: w_demo_def px_demo_def)
  have r: "remove_checkered_background 0 w_demo =
             (fst (remove_checkered_background 0 w_demo),
              snd (remove_checkered_background 0 w_demo))"
    by simp
  show ?thesis
    using keying_sets_alpha_iff_background[OF m s _ _ p0 r]
          keying_sets_alpha_iff_background[OF m s _ _ p1 r] m s p0 p1
    by simp
qed

text \<open>
  Claim C9. The filter writes only the alpha channel and only downward: at every
  coordinate the red, green and blue channels after the filter are those before it, and
  the alpha after it is the alpha before it or 0, hence never larger.
\<close>

theorem keying_only_lowers_alpha:
  assumes "mode (heap w img) = RGBA"
    and "remove_checkered_background img w = (img', w')"
    and "pixels (heap w img) c = (r, g, b, a)"
    and "pixels (heap w' img') c = (r', g', b', a')"
  shows "r' = r \<and> g' = g \<and> b' = b \<and> (a' = a \<or> a' = 0) \<and> a' \<le> a"
  using assms by (auto simp: rcb_RGBA key_region_pixels keyed_def split: if_splits)

theorem keying_only_lowers_alpha_witness:
  "mode (heap w_demo 0) = RGBA \<and>
   pixels (heap w_demo 0) (0, 0) = (200, 200, 200, 255) \<and>
   (case pixels (heap (snd (remove_checkered_background 0 w_demo))
                   (fst (remove_checkered_background 0 w_demo))) (0, 0) of
      (r', g', b', a') \<Rightarrow>
        r' = 200 \<and> g' = 200 \<and> b' = 200 \<and> (a' = 255 \<or> a' = 0) \<and> a' \<le> 255)"
proof -
  have m: "mode (heap w_demo 0) = RGBA"
    and p0: "pixels (heap w_demo 0) (0, 0) = (200, 200, 200, 255)"
    by (simp_all add: w_demo_def px_demo_def)
  have r: "remove_checkered_background 0 w_demo =
             (fst (remove_checkered_background 0 w_demo),
              snd (remove_checkered_background 0 w_demo))"
    by simp
  obtain r' g' b' a' where
    q: "pixels (heap (snd (remove_checkered_background 0 w_demo))
                  (fst (remove_checkered_background 0 w_demo))) (0, 0) = (r', g', b', a')"
    using prod_cases4 by blast
  show ?thesis
    using keying_only_lowers_alpha[OF m r p0 q] m p0 by (simp add: q)
qed

text \<open>
  Claim C3. The filter is idempotent: applying it to the image it returned changes
  nothing, neither the pixel buffer of that image nor anything else in the state.
\<close>

theorem keying_idempotent:
  assumes "remove_checkered_background img w = (img', w')"
  shows "remove_checkered_background img' w' = (img', w')"
proof -
  have m: "mode (heap w' img') = RGBA" using assms by (rule rcb_result_RGBA)
  show ?thesis
  proof (cases "mode (heap w img) = RGBA")
    case True
    then show ?thesis using assms
      by (auto simp: rcb_RGBA key_region_mode key_region_size key_region_twice)
  next
    case False
    obtain w1 where c: "convert_RGBA img w = (img', w1)"
      and w': "w' = key_region (\<lambda>c. fst c < fst (size_im (heap w1 img')) \<and>
                                    snd c < snd (size_im (heap w1 img'))) img' w1"
      using assms False
      by (auto simp: remove_checkered_background_def key_rows split: prod.splits)
    show ?thesis using m
      by (simp add: rcb_RGBA) (simp add: w' key_region_size key_region_twice)
  qed
qed

theorem keying_idempotent_witness:
  "remove_checkered_background (fst (remove_checkered_background 0 w_demo))
     (snd (remove_checkered_background 0 w_demo)) =
   remove_checkered_background 0 w_demo"
  using keying_idempotent[of 0 w_demo "fst (remove_checkered_background 0 w_demo)"
          "snd (remove_checkered_background 0 w_demo)"]
  by simp

section \<open>Properties of the region extractor\<close>

text \<open>
  Claim C8. The source image in memory is never mutated: whatever descriptors are
  processed, starting from any count and any state in which the source object exists, the
  source object (mode, size and every pixel) is afterwards what it was before. The crop
  allocates a new object, and the filter writes into that one only.
\<close>

theorem source_never_mutated:
  assumes "source < next_ref w"
    and "fold (extract_step source) table (n, w) = (n', w')"
  shows "heap w' source = heap w source"
  using extract_fold_frame[OF assms(2)] assms(1) by simp

theorem source_never_mutated_witness:
  "(0::nat) < next_ref w_composite \<and>
   heap (snd (fold (extract_step 0) ASSETS (0, w_composite))) 0 = heap w_composite 0"
proof -
  have l: "0 < next_ref w_composite" by (simp add: w_composite_def)
  have e: "fold (extract_step 0) ASSETS (0, w_composite) =
           (fst (fold (extract_step 0) ASSETS (0, w_composite)),
            snd (fold (extract_step 0) ASSETS (0, w_composite)))" by simp
  show ?thesis using source_never_mutated[OF l e] l by simp
qed

text \<open>
  Claim C7. For a descriptor \<open>(x, y, w, h)\<close> with \<open>w\<close> and \<open>h\<close> not negative whose
  rectangle lies within the source (\<open>0 \<le> x\<close>, \<open>0 \<le> y\<close>, \<open>x + w \<le> W\<close>,
  \<open>y + h \<le> H\<close>), the extracted image has width exactly \<open>w\<close> and height exactly
  \<open>h\<close> and the crop does not raise. The save raises when the environment refuses the
  write, and it raises on the empty image that \<open>w = 0\<close> or \<open>h = 0\<close> gives; otherwise
  that image is stored at the output path and no other file changes.
\<close>

theorem within_bounds_exact_size:
  assumes "mode (heap w source) = RGBA"
    and "size_im (heap w source) = (W, H)"
    and "0 \<le> x" and "0 \<le> y" and "0 \<le> wd" and "0 \<le> h"
    and "x + wd \<le> int W" and "y + h \<le> int H"
  shows "\<exists>img. int (fst (size_im img)) = wd \<and> int (snd (size_im img)) = h \<and>
           (if save_raises w (os_path_join OUTPUT_BASE output_path) img
            then fst (extract_one source (output_path, (x, y, wd, h), description) w) = Inl OSError \<and>
                 files (snd (extract_one source (output_path, (x, y, wd, h), description) w)) = files w
            else if wd = 0 \<or> h = 0
            then fst (extract_one source (output_path, (x, y, wd, h), description) w) = Inl SystemError \<and>
                 files (snd (extract_one source (output_path, (x, y, wd, h), description) w)) = files w
            else fst (extract_one source (output_path, (x, y, wd, h), description) w) = Inr () \<and>
                 files (snd (extract_one source (output_path, (x, y, wd, h), description) w)) =
                   (files w)(os_path_join OUTPUT_BASE output_path \<mapsto> Image_file img))"
proof -
  let ?img = "extracted_image (heap w source) (x, y, wd, h)"
  have cb: "crop_box (size_im (heap w source)) (x, y, wd, h) = (x, y, x + wd, y + h)"
    using assms by (simp add: crop_box_def)
  have sz: "size_im ?img = (nat wd, nat h)"
    by (simp add: extracted_image_size cb)
  have o: "outcome (save_raises w) (heap w source) (output_path, (x, y, wd, h), description) =
           (if save_raises w (os_path_join OUTPUT_BASE output_path) ?img then Some OSError
            else if wd = 0 \<or> h = 0 then Some SystemError else None)"
    using assms(5,6) by (auto simp: outcome_def cb save_error_def sz)
  show ?thesis
    using assms(5,6) sz
    by (intro exI[of _ ?img])
       (simp add: extract_one_eq[OF assms(1)] o with_extracted_def print_def)
qed

text \<open>
  The scenario: on a 1024 x 559 source, the descriptor \<open>(0, 12, 295, 115)\<close> gives exactly
  one output image, of size 295 x 115.
\<close>

theorem within_bounds_exact_size_witness:
  "mode (heap w_composite 0) = RGBA \<and> size_im (heap w_composite 0) = (1024, 559) \<and>
   (\<exists>img. size_im img = (295, 115) \<and>
      fst (extract_one 0 (''sprites/fighters/alphabot/spritesheet.png'', (0, 12, 295, 115),
                          ''AlphaBot fighter sprites (8 frames)'') w_composite) = Inr () \<and>
      files (snd (extract_one 0 (''sprites/fighters/alphabot/spritesheet.png'', (0, 12, 295, 115),
                          ''AlphaBot fighter sprites (8 frames)'') w_composite)) =
        (files w_composite)
          (os_path_join OUTPUT_BASE ''sprites/fighters/alphabot/spritesheet.png'' \<mapsto> Image_file img))"
proof -
  have m: "mode (heap w_composite 0) = RGBA" and s: "size_im (heap w_composite 0) = (1024, 559)"
    and sr: "\<And>p i. \<not> save_raises w_composite p i"
    by (simp_all add: w_composite_def img_flat_def)
  from within_bounds_exact_size[OF m s, of 0 12 295 115
         "''sprites/fighters/alphabot/spritesheet.png''" "''AlphaBot fighter sprites (8 frames)''"]
  obtain img where "int (fst (size_im img)) = 295" "int (snd (size_im img)) = 115"
    and "fst (extract_one 0 (''sprites/fighters/alphabot/spritesheet.png'', (0, 12, 295, 115),
                          ''AlphaBot fighter sprites (8 frames)'') w_composite) = Inr ()"
    and "files (snd (extract_one 0 (''sprites/fighters/alphabot/spritesheet.png'', (0, 12, 295, 115),
                          ''AlphaBot fighter sprites (8 frames)'') w_composite)) =
        (files w_composite)
          (os_path_join OUTPUT_BASE ''sprites/fighters/alphabot/spritesheet.png'' \<mapsto> Image_file img)"
    using sr by auto
  then show ?thesis using m s by (intro conjI exI[of _ img]) (auto simp: prod_eq_iff)
qed

text \<open>
  Claim C4. When the source loads, the extraction prints one line for every descriptor of
  the table, in the order of the table (the success line when crop, filter and save
  completed, the error line with the exception otherwise), so a failing descriptor does
  not stop the ones after it; the last line reports \<open>N\<close> of \<open>M\<close>, where \<open>M\<close> is the
  length of the table and \<open>N\<close> is the number of descriptors that completed without an
  exception.
\<close>

theorem extraction_continues_and_counts:
  assumes "files w source_path = Some (Image_file im)"
  shows "\<exists>w'. extract_assets_over table source_path w = (True, w') \<and>
     console w' =
       console w @ [Loading_source source_path, Image_size (size_im im), Image_mode RGBA]
        @ map (report (save_raises w) (loaded im)) table
        @ [Extracted_count
             (length (filter (\<lambda>a. outcome (save_raises w) (loaded im) a = None) table))
             (length table)]"
  using assms by (rule extract_assets_over_loaded)

theorem extraction_continues_and_counts_witness:
  "files w_composite SOURCE_IMAGE = Some (Image_file (img_flat (1024, 559))) \<and>
   (\<exists>w'. extract_assets_over table_demo SOURCE_IMAGE w_composite = (True, w') \<and>
      console w' =
        [Loading_source SOURCE_IMAGE, Image_size (1024, 559), Image_mode RGBA,
         Error_extracting ''a.png'' ValueError, Ok_extracted ''b.png'' 295 115,
         Extracted_count 1 2])"
proof -
  have f: "files w_composite SOURCE_IMAGE = Some (Image_file (img_flat (1024, 559)))"
    by (simp add: w_composite_def)
  have l: "loaded (img_flat (1024, 559)) = img_flat (1024, 559)"
    by (simp add: loaded_def img_flat_def)
  have s: "size_im (img_flat (1024, 559)) = (1024, 559)" by (simp add: img_flat_def)
  have sr: "save_raises w_composite = (\<lambda>p i. False)" and c: "console w_composite = []"
    by (simp_all add: w_composite_def)
  have o1: "outcome (\<lambda>p i. False) (img_flat (1024, 559)) (''a.png'', (2000, 12, 295, 115), ''outside'')
            = Some ValueError"
    by (simp add: outcome_def crop_box_def s)
  have o2: "outcome (\<lambda>p i. False) (img_flat (1024, 559)) (''b.png'', (0, 12, 295, 115), ''inside'')
            = None"
    by (simp add: outcome_def crop_box_def s save_error_def extracted_image_size)
  show ?thesis
    using extraction_continues_and_counts[OF f, of table_demo] f
    by (simp add: l s sr c table_demo_def report_def o1 o2 numeral_2_eq_2)
qed



text \<open>
  Claim C1, evaluated on the program's own table with a source of size 300 x 559. The
  fifth descriptor \<open>(305, 12, 175, 45)\<close> lies to the right of the source. Its crop box is
  \<open>(305, 12, 300, 57)\<close>: the left edge 305 is not within \<open>[0, 300]\<close> and the right edge
  is smaller than the left one, so the box is not the empty intersection of the rectangle
  with the source. The crop raises, and the round of the loop ends in the
  \<^verbatim>\<open>except\<close> branch with the error line printed and the count unchanged.
\<close>

theorem clamp_misses_outside_rectangles:
  "ASSETS ! 4 = (''backgrounds/cyber-colosseum/layer1-far.png'', (305, 12, 175, 45),
                 ''Cyber Colosseum far background'') \<and>
   size_im (heap w_narrow 0) = (300, 559) \<and>
   crop_box (300, 559) (305, 12, 175, 45) = (305, 12, 300, 57) \<and>
   extract_step 0 (ASSETS ! 4) (0, w_narrow) =
     (0, print (Error_extracting ''backgrounds/cyber-colosseum/layer1-far.png'' ValueError) w_narrow)"
proof -
  have a: "ASSETS ! 4 = (''backgrounds/cyber-colosseum/layer1-far.png'', (305, 12, 175, 45),
                 ''Cyber Colosseum far background'')"
    by (simp add: ASSETS_def)
  have s: "size_im (heap w_narrow 0) = (300, 559)" by (simp add: w_narrow_def img_flat_def)
  have c: "crop_box (300, 559) (305, 12, 175, 45) = (305, 12, 300, 57)"
    by (simp add: crop_box_def)
  have "extract_one 0 (''backgrounds/cyber-colosseum/layer1-far.png'', (305, 12, 175, 45),
                 ''Cyber Colosseum far background'') w_narrow = (Inl ValueError, w_narrow)"
    by (simp add: extract_one_def s c crop_def)
  then show ?thesis using a s c by (simp add: extract_step_def)
qed

section \<open>Properties of the spritesheet slicer\<close>

text \<open>
  Claim C5 does not hold for every sheet. A sheet of 3 x 114 gives frames of width
  \<open>3 div 4 = 0\<close>: the save of the first frame raises, so no frame is written, and the
  slicer prints its error line instead of the line that reports 8 frames.
\<close>

theorem slicer_tiny_sheet_counterexample:
  "files (w_sheet (3, 114)) (sheet_path ''alphabot'') = Some (Image_file (img_flat (3, 114))) \<and>
   size_im (img_flat (3, 114)) = (3, 114) \<and>
   files (split_fighter_spritesheet ''alphabot'' (w_sheet (3, 114)))
     (frame_path ''alphabot'' ''idle'') = None \<and>
   console (split_fighter_spritesheet ''alphabot'' (w_sheet (3, 114))) =
     [Sheet_info ''alphabot'' (3, 114) (0, 57), Error_splitting ''alphabot'' SystemError]"
proof -
  let ?w = "w_sheet (3, 114)"
  have f: "files ?w (sheet_path ''alphabot'') = Some (Image_file (img_flat (3, 114)))"
    and sr: "\<And>p i. \<not> save_raises ?w p i" and c0: "console ?w = []"
    by (simp_all add: w_sheet_def)
  have sz: "size_im (img_flat (3, 114)) = (3, 114)" by (simp add: img_flat_def)
  have fr: "frame_path ''alphabot'' ''idle'' \<noteq> sheet_path ''alphabot''"
    by (simp add: frame_path_def sheet_path_def os_path_join_def)
  have fn: "files ?w (frame_path ''alphabot'' ''idle'') = None"
    using fr by (simp add: w_sheet_def)
  have t: "(3::nat) < 4 \<or> (114::nat) < 2" by simp
  show ?thesis
    using split_fighter_console(2)[OF f sz t sr] f sz fn c0 by simp
qed

text \<open>
  Claim C5, amended to sheets whose frames are not empty. For a sheet of size \<open>(sw, sh)\<close>
  with \<open>4 \<le> sw\<close> and \<open>2 \<le> sh\<close>, when the environment refuses no save, the fighter
  slicer writes 8 frames. Frame \<open>i\<close> is stored under the \<open>i\<close>-th name of the table (idle,
  walk, jump, attack1, attack2, special, hit, ko); it has size \<open>(sw div 4, sh div 2)\<close>, and
  its pixel \<open>(x, y)\<close> is the pixel of the sheet at column \<open>(i mod 4) * (sw div 4) + x\<close> and
  row \<open>(i div 4) * (sh div 2) + y\<close>, which lies within the sheet: the frames are the tiles
  of the 2 x 4 grid in row-major order. A frame index from 8 on gets the name
  \<open>frame_N\<close>.
\<close>

theorem slicer_row_major_frames:
  assumes "files w (sheet_path fighter_name) = Some (Image_file sheet)"
    and "\<forall>p im. \<not> save_raises w p im"
    and "size_im sheet = (sw, sh)"
    and "4 \<le> sw" and "2 \<le> sh"
    and "i < 8"
  shows "anim_name i = frame_names ! i \<and>
         (\<exists>frame.
            files (split_fighter_spritesheet fighter_name w) (frame_path fighter_name (anim_name i)) =
              Some (Image_file frame) \<and>
            size_im frame = (sw div 4, sh div 2) \<and>
            (\<forall>x<sw div 4. \<forall>y<sh div 2.
               (i mod 4) * (sw div 4) + x < sw \<and> (i div 4) * (sh div 2) + y < sh \<and>
               pixels frame (x, y) =
                 pixels (loaded sheet) ((i mod 4) * (sw div 4) + x, (i div 4) * (sh div 2) + y))) \<and>
         last (console (split_fighter_spritesheet fighter_name w)) = Ok_split fighter_name 8 \<and>
         (\<forall>n\<ge>8. anim_name n = ''frame_'' @ str n)"
proof -
  have sr: "\<And>p im. \<not> save_raises w p im" using assms(2) by simp
  have n: "anim_name i = frame_names ! i"
    using less_8_cases[OF assms(6)]
    by (elim disjE) (simp_all add: anim_names anim_names_Suc frame_names_def)
  let ?frame = "cropped_image (loaded sheet) (frame_box (sw div 4) (sh div 2) (i div 4) (i mod 4))"
  have sl: "size_im (loaded sheet) = (sw, sh)" by (simp add: loaded_size assms(3))
  have c: "i mod 4 < 4" and r: "i div 4 < 2" using assms(6) by simp_all
  note cf = cropped_frame[OF sl c r]
  have "files (split_fighter_spritesheet fighter_name w) (frame_path fighter_name (anim_name i)) =
          Some (Image_file ?frame)"
    unfolding n by (rule split_fighter_frame[OF assms(1) sr assms(3,4,5,6)])
  moreover have "last (console (split_fighter_spritesheet fighter_name w)) = Ok_split fighter_name 8"
    by (simp add: split_fighter_files(2)[OF assms(1) sr assms(3,4,5)])
  ultimately show ?thesis
    using n cf by (auto simp: anim_name_fallback)
qed

theorem slicer_row_major_frames_witness:
  "files (w_sheet (296, 114)) (sheet_path ''alphabot'') = Some (Image_file (img_flat (296, 114))) \<and>
   anim_name 5 = ''special'' \<and>
   (\<exists>frame.
      files (split_fighter_spritesheet ''alphabot'' (w_sheet (296, 114))) (frame_path ''alphabot'' ''special'') =
        Some (Image_file frame) \<and>
      size_im frame = (74, 57) \<and>
      pixels frame (0, 0) = pixels (img_flat (296, 114)) (74, 57)) \<and>
   last (console (split_fighter_spritesheet ''alphabot'' (w_sheet (296, 114)))) = Ok_split ''alphabot'' 8 \<and>
   anim_name 8 = ''frame_8''"
proof -
  have f: "files (w_sheet (296, 114)) (sheet_path ''alphabot'') = Some (Image_file (img_flat (296, 114)))"
    and sr: "\<forall>p im. \<not> save_raises (w_sheet (296, 114)) p im"
    by (simp_all add: w_sheet_def)
  have sz: "size_im (img_flat (296, 114)) = (296, 114)" by (simp add: img_flat_def)
  have l: "loaded (img_flat (296, 114)) = img_flat (296, 114)"
    by (simp add: loaded_def img_flat_def)
  have a5: "anim_name 5 = ''special''" by (simp add: anim_name_def animations_def)
  have s8: "str 8 = ''8''" by code_simp
  have i: "(5::nat) < 8" and big: "(4::nat) \<le> 296" "(2::nat) \<le> 114" by simp_all
  obtain frame where
    b: "files (split_fighter_spritesheet ''alphabot'' (w_sheet (296, 114)))
              (frame_path ''alphabot'' (anim_name 5)) = Some (Image_file frame)"
    and c: "size_im frame = (296 div 4, 114 div 2)"
    and d: "\<forall>x<296 div 4. \<forall>y<114 div 2.
              (5 mod 4) * (296 div 4) + x < 296 \<and> (5 div 4) * (114 div 2) + y < 114 \<and>
              pixels frame (x, y) =
                pixels (loaded (img_flat (296, 114)))
                  ((5 mod 4) * (296 div 4) + x, (5 div 4) * (114 div 2) + y)"
    and a: "last (console (split_fighter_spritesheet ''alphabot'' (w_sheet (296, 114)))) = Ok_split ''alphabot'' 8"
    and e: "\<forall>n\<ge>8. anim_name n = ''frame_'' @ str n"
    using slicer_row_major_frames[OF f sr sz big i] by blast
  have "pixels frame (0, 0) = pixels (img_flat (296, 114)) (74, 57)"
    using d[rule_format, of 0 0] by (simp add: l)
  moreover have "anim_name 8 = ''frame_8''" using e[rule_format, of 8] by (simp add: s8)
  ultimately show ?thesis
    using a b c f by (auto simp: a5)
qed



end
